theory Spec2Isabelle
  imports Main
begin

section \<open>JSON values and Python dictionaries\<close>

text \<open>
  A line of the transcript is parsed by \<^verbatim>\<open>json.loads\<close> into a Python dict from field
  names to JSON values. JSON numbers are modelled as Python's unbounded integers (floats
  are outside the model).
\<close>

datatype json =
    JNull
  | JBool bool
  | JInt int
  | JStr string
  | JList "json list"
  | JObject "(string \<times> json) list"

datatype error = TypeError | IndexError

type_synonym pydict = "string \<rightharpoonup> json"

text \<open>Python's truth test (\<^verbatim>\<open>if x:\<close>, \<^verbatim>\<open>while x:\<close>, \<^verbatim>\<open>x and y\<close>).\<close>

fun truthy :: "json \<Rightarrow> bool" where
  "truthy JNull = False"
| "truthy (JBool b) = b"
| "truthy (JInt i) = (i \<noteq> 0)"
| "truthy (JStr s) = (s \<noteq> [])"
| "truthy (JList xs) = (xs \<noteq> [])"
| "truthy (JObject kvs) = (kvs \<noteq> [])"

text \<open>Lists and dicts are unhashable: using one as a dict key raises \<^verbatim>\<open>TypeError\<close>.\<close>

fun hashable :: "json \<Rightarrow> bool" where
  "hashable (JList xs) = False"
| "hashable (JObject kvs) = False"
| "hashable v = True"

text \<open>
  Two keys of a Python dict are the same key when they are equal: \<^verbatim>\<open>True == 1\<close> and
  \<^verbatim>\<open>False == 0\<close>, every other pair of distinct JSON scalars differs. \<open>dict_key\<close> maps a
  value to the representative of its key.
\<close>

fun dict_key :: "json \<Rightarrow> json" where
  "dict_key (JBool b) = JInt (if b then 1 else 0)"
| "dict_key v = v"

text \<open>\<^verbatim>\<open>record.get(k)\<close>: the value, or \<^verbatim>\<open>None\<close> when the field is absent.\<close>

definition dict_get :: "pydict \<Rightarrow> string \<Rightarrow> json" where
  "dict_get d k = (case d k of None \<Rightarrow> JNull | Some v \<Rightarrow> v)"

section \<open>Record store\<close>

text \<open>
  \<^verbatim>\<open>load_records\<close>, from the lines that parsed (blank and malformed lines are skipped by
  the source before this point): every record is appended to \<^verbatim>\<open>records\<close>, and a record
  with a \<^verbatim>\<open>uuid\<close> field is stored in \<^verbatim>\<open>by_uuid\<close> under it, a later record replacing an
  earlier one with the same identifier.
\<close>

fun load_loop ::
  "pydict list \<Rightarrow> pydict list \<Rightarrow> (json \<rightharpoonup> pydict) \<Rightarrow> error + (pydict list \<times> (json \<rightharpoonup> pydict))"
where
  "load_loop [] records by_uuid = Inr (records, by_uuid)"
| "load_loop (record # lines) records by_uuid =
     (case record ''uuid'' of
        None \<Rightarrow> load_loop lines (records @ [record]) by_uuid
      | Some u \<Rightarrow>
          if hashable u
          then load_loop lines (records @ [record]) (by_uuid(dict_key u \<mapsto> record))
          else Inl TypeError)"

definition load_records :: "pydict list \<Rightarrow> error + (pydict list \<times> (json \<rightharpoonup> pydict))" where
  "load_records parsed = load_loop parsed [] Map.empty"

section \<open>Head resolver\<close>

fun find_head_loop :: "pydict list \<Rightarrow> json" where
  "find_head_loop [] = JNull"
| "find_head_loop (record # rest) =
     (if dict_get record ''type'' \<noteq> JStr ''user'' \<and> dict_get record ''type'' \<noteq> JStr ''assistant''
      then find_head_loop rest
      else if truthy (dict_get record ''isCompactSummary'')
      then find_head_loop rest
      else dict_get record ''uuid'')"

definition find_head :: "pydict list \<Rightarrow> json" where
  "find_head records = find_head_loop (rev records)"

section \<open>Compaction markers\<close>

definition is_compaction_marker :: "pydict \<Rightarrow> bool" where
  "is_compaction_marker record =
     (if truthy (dict_get record ''isCompactSummary'') then True
      else if dict_get record ''type'' = JStr ''system''
              \<and> dict_get record ''subtype'' = JStr ''compact_boundary'' then True
      else False)"

section \<open>Segment extraction\<close>

text \<open>The position index built at the start of \<^verbatim>\<open>extract_all_segments\<close>.\<close>

fun index_positions :: "pydict list \<Rightarrow> nat \<Rightarrow> (json \<rightharpoonup> nat) \<Rightarrow> error + (json \<rightharpoonup> nat)" where
  "index_positions [] i uuid_to_index = Inr uuid_to_index"
| "index_positions (r # rest) i uuid_to_index =
     (case r ''uuid'' of
        None \<Rightarrow> index_positions rest (Suc i) uuid_to_index
      | Some u \<Rightarrow>
          if hashable u
          then index_positions rest (Suc i) (uuid_to_index(dict_key u \<mapsto> i))
          else Inl TypeError)"

text \<open>
  The branch of the inner loop taken at a compaction marker: the position of the marker
  is looked up by its identifier, and the identifier of the record before it in the file
  becomes \<^verbatim>\<open>prev_chain_head\<close>.
\<close>

definition boundary_prev :: "(json \<rightharpoonup> nat) \<Rightarrow> pydict list \<Rightarrow> pydict \<Rightarrow> error + json" where
  "boundary_prev uuid_to_index records record =
     (if \<not> hashable (dict_get record ''uuid'') then Inl TypeError
      else case uuid_to_index (dict_key (dict_get record ''uuid'')) of
          None \<Rightarrow> Inr JNull
        | Some idx \<Rightarrow>
            if 0 < idx
            then (if idx - 1 < length records
                  then Inr (dict_get (records ! (idx - 1)) ''uuid'')
                  else Inl IndexError)
            else Inr JNull)"

text \<open>
  The inner \<^verbatim>\<open>while current:\<close> loop. It returns the chain in walk order (newest first)
  with \<^verbatim>\<open>prev_chain_head\<close>, raises, or runs forever (\<open>None\<close>).
\<close>

partial_function (option) walk_chain ::
  "(json \<rightharpoonup> pydict) \<Rightarrow> (json \<rightharpoonup> nat) \<Rightarrow> pydict list \<Rightarrow> json \<Rightarrow> pydict list
     \<Rightarrow> (error + pydict list \<times> json) option"
where
  "walk_chain by_uuid uuid_to_index records current chain =
     (if \<not> truthy current then Some (Inr (chain, JNull))
      else if \<not> hashable current then Some (Inl TypeError)
      else case by_uuid (dict_key current) of
          None \<Rightarrow> Some (Inr (chain, JNull))
        | Some record \<Rightarrow>
            if record = Map.empty then Some (Inr (chain, JNull))
            else if is_compaction_marker record
            then (case boundary_prev uuid_to_index records record of
                    Inl e \<Rightarrow> Some (Inl e)
                  | Inr prev_chain_head \<Rightarrow> Some (Inr (chain, prev_chain_head)))
            else walk_chain by_uuid uuid_to_index records
                   (dict_get record ''parentUuid'') (chain @ [record]))"

text \<open>The outer \<^verbatim>\<open>while current_head:\<close> loop, segments in discovery order.\<close>

partial_function (option) segments_loop ::
  "(json \<rightharpoonup> pydict) \<Rightarrow> (json \<rightharpoonup> nat) \<Rightarrow> pydict list \<Rightarrow> json \<Rightarrow> pydict list list
     \<Rightarrow> (error + pydict list list) option"
where
  "segments_loop by_uuid uuid_to_index records current_head segments =
     (if \<not> truthy current_head then Some (Inr segments)
      else case walk_chain by_uuid uuid_to_index records current_head [] of
          None \<Rightarrow> None
        | Some (Inl e) \<Rightarrow> Some (Inl e)
        | Some (Inr (chain, prev_chain_head)) \<Rightarrow>
            segments_loop by_uuid uuid_to_index records prev_chain_head
              (if rev chain \<noteq> [] then segments @ [rev chain] else segments))"

definition extract_all_segments ::
  "json \<Rightarrow> (json \<rightharpoonup> pydict) \<Rightarrow> pydict list \<Rightarrow> (error + pydict list list) option"
where
  "extract_all_segments head_uuid by_uuid records =
     (case index_positions records 0 Map.empty of
        Inl e \<Rightarrow> Some (Inl e)
      | Inr uuid_to_index \<Rightarrow>
          (case segments_loop by_uuid uuid_to_index records head_uuid [] of
             None \<Rightarrow> None
           | Some (Inl e) \<Rightarrow> Some (Inl e)
           | Some (Inr segments) \<Rightarrow> Some (Inr (rev segments))))"

section \<open>Big-step characterisation of the two loops\<close>

text \<open>
  \<open>walk_rel current xs prev\<close>: the inner loop started at \<open>current\<close> returns normally after
  appending the records \<open>xs\<close> (in walk order) and leaves \<open>prev\<close> in \<^verbatim>\<open>prev_chain_head\<close>.
\<close>

inductive walk_rel ::
  "(json \<rightharpoonup> pydict) \<Rightarrow> (json \<rightharpoonup> nat) \<Rightarrow> pydict list \<Rightarrow> json \<Rightarrow> pydict list \<Rightarrow> json \<Rightarrow> bool"
  for by_uuid :: "json \<rightharpoonup> pydict" and uuid_to_index :: "json \<rightharpoonup> nat" and records :: "pydict list"
where
  walk_falsy: "\<not> truthy current \<Longrightarrow> walk_rel by_uuid uuid_to_index records current [] JNull"
| walk_missing: "truthy current \<Longrightarrow> hashable current \<Longrightarrow> by_uuid (dict_key current) = None
     \<Longrightarrow> walk_rel by_uuid uuid_to_index records current [] JNull"
| walk_empty: "truthy current \<Longrightarrow> hashable current \<Longrightarrow> by_uuid (dict_key current) = Some Map.empty
     \<Longrightarrow> walk_rel by_uuid uuid_to_index records current [] JNull"
| walk_marker: "truthy current \<Longrightarrow> hashable current \<Longrightarrow> by_uuid (dict_key current) = Some record
     \<Longrightarrow> record \<noteq> Map.empty \<Longrightarrow> is_compaction_marker record
     \<Longrightarrow> boundary_prev uuid_to_index records record = Inr prev
     \<Longrightarrow> walk_rel by_uuid uuid_to_index records current [] prev"
| walk_step: "truthy current \<Longrightarrow> hashable current \<Longrightarrow> by_uuid (dict_key current) = Some record
     \<Longrightarrow> record \<noteq> Map.empty \<Longrightarrow> \<not> is_compaction_marker record
     \<Longrightarrow> walk_rel by_uuid uuid_to_index records (dict_get record ''parentUuid'') xs prev
     \<Longrightarrow> walk_rel by_uuid uuid_to_index records current (record # xs) prev"

text \<open>
  \<open>segs_rel current_head new\<close>: the outer loop started at \<open>current_head\<close> returns normally
  after appending the segments \<open>new\<close> (in discovery order, each one oldest record first).
\<close>

inductive segs_rel ::
  "(json \<rightharpoonup> pydict) \<Rightarrow> (json \<rightharpoonup> nat) \<Rightarrow> pydict list \<Rightarrow> json \<Rightarrow> pydict list list \<Rightarrow> bool"
  for by_uuid :: "json \<rightharpoonup> pydict" and uuid_to_index :: "json \<rightharpoonup> nat" and records :: "pydict list"
where
  segs_done: "\<not> truthy current_head \<Longrightarrow> segs_rel by_uuid uuid_to_index records current_head []"
| segs_more: "truthy current_head
     \<Longrightarrow> walk_rel by_uuid uuid_to_index records current_head xs prev
     \<Longrightarrow> segs_rel by_uuid uuid_to_index records prev rest
     \<Longrightarrow> segs_rel by_uuid uuid_to_index records current_head
           ((if xs \<noteq> [] then [rev xs] else []) @ rest)"

section \<open>Example logs\<close>

text \<open>
  The records of the scenario \<open>A, B, C, marker, D, E\<close>: \<open>ex_D\<close> has parent \<open>C\<close>, \<open>ex_Dm\<close> has
  the marker as its parent.
\<close>

definition ex_A :: pydict where
  "ex_A = [''uuid'' \<mapsto> JStr ''a'', ''parentUuid'' \<mapsto> JNull, ''type'' \<mapsto> JStr ''user'',
           ''sessionId'' \<mapsto> JStr ''s0'']"

definition ex_B :: pydict where
  "ex_B = [''uuid'' \<mapsto> JStr ''b'', ''parentUuid'' \<mapsto> JStr ''a'', ''type'' \<mapsto> JStr ''assistant'',
           ''sessionId'' \<mapsto> JStr ''s0'']"

definition ex_C :: pydict where
  "ex_C = [''uuid'' \<mapsto> JStr ''c'', ''parentUuid'' \<mapsto> JStr ''b'', ''type'' \<mapsto> JStr ''user'',
           ''sessionId'' \<mapsto> JStr ''s0'']"

definition ex_M :: pydict where
  "ex_M = [''uuid'' \<mapsto> JStr ''m'', ''parentUuid'' \<mapsto> JNull, ''type'' \<mapsto> JStr ''system'',
           ''subtype'' \<mapsto> JStr ''compact_boundary'', ''sessionId'' \<mapsto> JStr ''s0'']"

definition ex_D :: pydict where
  "ex_D = [''uuid'' \<mapsto> JStr ''d'', ''parentUuid'' \<mapsto> JStr ''c'', ''type'' \<mapsto> JStr ''user'',
           ''sessionId'' \<mapsto> JStr ''s0'']"

definition ex_Dm :: pydict where
  "ex_Dm = [''uuid'' \<mapsto> JStr ''d'', ''parentUuid'' \<mapsto> JStr ''m'', ''type'' \<mapsto> JStr ''user'',
            ''sessionId'' \<mapsto> JStr ''s0'']"

definition ex_E :: pydict where
  "ex_E = [''uuid'' \<mapsto> JStr ''e'', ''parentUuid'' \<mapsto> JStr ''d'', ''type'' \<mapsto> JStr ''assistant'',
           ''sessionId'' \<mapsto> JStr ''s0'']"

definition ex_log :: "pydict list" where
  "ex_log = [ex_A, ex_B, ex_C, ex_M, ex_D, ex_E]"

definition ex_log_m :: "pydict list" where
  "ex_log_m = [ex_A, ex_B, ex_C, ex_M, ex_Dm, ex_E]"

definition ex_by_uuid :: "json \<rightharpoonup> pydict" where
  "ex_by_uuid = [JStr ''a'' \<mapsto> ex_A, JStr ''b'' \<mapsto> ex_B, JStr ''c'' \<mapsto> ex_C, JStr ''m'' \<mapsto> ex_M,
                 JStr ''d'' \<mapsto> ex_D, JStr ''e'' \<mapsto> ex_E]"

definition ex_by_uuid_m :: "json \<rightharpoonup> pydict" where
  "ex_by_uuid_m = [JStr ''a'' \<mapsto> ex_A, JStr ''b'' \<mapsto> ex_B, JStr ''c'' \<mapsto> ex_C, JStr ''m'' \<mapsto> ex_M,
                   JStr ''d'' \<mapsto> ex_Dm, JStr ''e'' \<mapsto> ex_E]"

definition ex_uuid_to_index :: "json \<rightharpoonup> nat" where
  "ex_uuid_to_index = [JStr ''a'' \<mapsto> 0, JStr ''b'' \<mapsto> 1, JStr ''c'' \<mapsto> 2, JStr ''m'' \<mapsto> 3,
                       JStr ''d'' \<mapsto> 4, JStr ''e'' \<mapsto> 5]"

section \<open>Identity rewriting\<close>

text \<open>
  \<^verbatim>\<open>rewrite_uuids\<close>. The calls of \<^verbatim>\<open>uuid.uuid4()\<close> are modelled by a supply \<open>uuid4\<close>, the
  string returned by the \<open>n\<close>-th call of the run; every record of the segment takes one.
  \<open>old_to_new\<close> is updated before the parent reference of the same record is looked up, as
  in the source.
\<close>

fun rewrite_loop ::
  "(nat \<Rightarrow> string) \<Rightarrow> nat \<Rightarrow> string \<Rightarrow> pydict list \<Rightarrow> (json \<rightharpoonup> string) \<Rightarrow> pydict list
     \<Rightarrow> error + pydict list"
where
  "rewrite_loop uuid4 n new_session_id [] old_to_new rewritten = Inr rewritten"
| "rewrite_loop uuid4 n new_session_id (record # rest) old_to_new rewritten =
     (let old_uuid = dict_get record ''uuid'';
          new_uuid = uuid4 n
      in if truthy old_uuid \<and> \<not> hashable old_uuid then Inl TypeError
         else
           let old_to_new' = (if truthy old_uuid
                              then old_to_new(dict_key old_uuid \<mapsto> new_uuid) else old_to_new);
               new_record = record(''uuid'' \<mapsto> JStr new_uuid,
                                   ''sessionId'' \<mapsto> JStr new_session_id);
               old_parent = dict_get record ''parentUuid''
           in if truthy old_parent \<and> \<not> hashable old_parent then Inl TypeError
              else rewrite_loop uuid4 (Suc n) new_session_id rest old_to_new'
                     (rewritten @
                        [case (if truthy old_parent then old_to_new' (dict_key old_parent)
                               else None) of
                           Some new_parent \<Rightarrow> new_record(''parentUuid'' \<mapsto> JStr new_parent)
                         | None \<Rightarrow> new_record(''parentUuid'' \<mapsto> JNull)]))"

definition rewrite_uuids ::
  "(nat \<Rightarrow> string) \<Rightarrow> nat \<Rightarrow> pydict list \<Rightarrow> string \<Rightarrow> error + pydict list"
where
  "rewrite_uuids uuid4 n segment new_session_id =
     rewrite_loop uuid4 n new_session_id segment Map.empty []"

subsection \<open>The same function on an explicit object store\<close>

text \<open>
  To speak about mutation, records are objects in a store (a list of dicts, an object's
  address being its position) and a segment is a list of addresses. \<^verbatim>\<open>record.copy()\<close>
  allocates a new object with the fields of the old one; the three assignments write to the
  new object.
\<close>

type_synonym heap = "pydict list"

fun rewrite_loop_heap ::
  "(nat \<Rightarrow> string) \<Rightarrow> nat \<Rightarrow> string \<Rightarrow> nat list \<Rightarrow> (json \<rightharpoonup> string) \<Rightarrow> nat list \<Rightarrow> heap
     \<Rightarrow> error + (nat list \<times> heap)"
where
  "rewrite_loop_heap uuid4 n new_session_id [] old_to_new rewritten h = Inr (rewritten, h)"
| "rewrite_loop_heap uuid4 n new_session_id (record # rest) old_to_new rewritten h =
     (let old_uuid = dict_get (h ! record) ''uuid'';
          new_uuid = uuid4 n
      in if truthy old_uuid \<and> \<not> hashable old_uuid then Inl TypeError
         else
           let old_to_new' = (if truthy old_uuid
                              then old_to_new(dict_key old_uuid \<mapsto> new_uuid) else old_to_new);
               new_record = length h;
               h1 = h @ [h ! record];
               h2 = h1[new_record := (h1 ! new_record)(''uuid'' \<mapsto> JStr new_uuid)];
               h3 = h2[new_record := (h2 ! new_record)(''sessionId'' \<mapsto> JStr new_session_id)];
               old_parent = dict_get (h3 ! record) ''parentUuid''
           in if truthy old_parent \<and> \<not> hashable old_parent then Inl TypeError
              else
                let h4 = (case (if truthy old_parent then old_to_new' (dict_key old_parent)
                                else None) of
                            Some new_parent \<Rightarrow>
                              h3[new_record := (h3 ! new_record)(''parentUuid'' \<mapsto> JStr new_parent)]
                          | None \<Rightarrow>
                              h3[new_record := (h3 ! new_record)(''parentUuid'' \<mapsto> JNull)])
                in rewrite_loop_heap uuid4 (Suc n) new_session_id rest old_to_new'
                     (rewritten @ [new_record]) h4)"

definition rewrite_uuids_heap ::
  "(nat \<Rightarrow> string) \<Rightarrow> nat \<Rightarrow> nat list \<Rightarrow> string \<Rightarrow> heap \<Rightarrow> error + (nat list \<times> heap)"
where
  "rewrite_uuids_heap uuid4 n segment new_session_id h =
     rewrite_loop_heap uuid4 n new_session_id segment Map.empty [] h"

section \<open>Splitting a log\<close>

text \<open>
  \<^verbatim>\<open>split_log\<close>, with the files written so far as explicit state: a file is its name and
  the records written to it. The result is the list of \<open>(session_id, file name)\<close>.
\<close>

type_synonym files = "(string \<times> pydict list) list"

fun write_loop ::
  "(nat \<Rightarrow> string) \<Rightarrow> nat \<Rightarrow> pydict list list \<Rightarrow> files \<Rightarrow> (string \<times> string) list
     \<Rightarrow> files \<times> (error + (string \<times> string) list)"
where
  "write_loop uuid4 n [] written results = (written, Inr results)"
| "write_loop uuid4 n (segment # rest) written results =
     (let session_id = uuid4 n in
      case rewrite_uuids uuid4 (Suc n) segment session_id of
        Inl e \<Rightarrow> (written, Inl e)
      | Inr rewritten \<Rightarrow>
          write_loop uuid4 (Suc n + length segment) rest
            (written @ [(session_id @ ''.jsonl'', rewritten)])
            (results @ [(session_id, session_id @ ''.jsonl'')]))"

definition split_log ::
  "(nat \<Rightarrow> string) \<Rightarrow> pydict list \<Rightarrow> (files \<times> (error + (string \<times> string) list)) option"
where
  "split_log uuid4 parsed =
     (case load_records parsed of
        Inl e \<Rightarrow> Some ([], Inl e)
      | Inr (records, by_uuid) \<Rightarrow>
          (let head = find_head records in
           if \<not> truthy head then Some ([], Inr [])
           else case extract_all_segments head by_uuid records of
                  None \<Rightarrow> None
                | Some (Inl e) \<Rightarrow> Some ([], Inl e)
                | Some (Inr segments) \<Rightarrow> Some (write_loop uuid4 0 segments [] [])))"

section \<open>Notions used in the statements\<close>

text \<open>The records \<^verbatim>\<open>find_head\<close> stops at: a user or assistant record that is no compaction summary.\<close>

definition head_candidate :: "pydict \<Rightarrow> bool" where
  "head_candidate record =
     ((dict_get record ''type'' = JStr ''user'' \<or> dict_get record ''type'' = JStr ''assistant'')
      \<and> \<not> truthy (dict_get record ''isCompactSummary''))"

text \<open>
  The states of one walk: \<open>walk_reaches by_uuid head current chain\<close> holds when the inner
  loop started from \<open>head\<close> arrives at the loop test with \<open>current\<close> and \<open>chain\<close>.
\<close>

inductive walk_reaches :: "(json \<rightharpoonup> pydict) \<Rightarrow> json \<Rightarrow> json \<Rightarrow> pydict list \<Rightarrow> bool"
  for by_uuid :: "json \<rightharpoonup> pydict" and head :: json
where
  reaches_start: "walk_reaches by_uuid head head []"
| reaches_step: "walk_reaches by_uuid head current chain
     \<Longrightarrow> truthy current \<Longrightarrow> hashable current \<Longrightarrow> by_uuid (dict_key current) = Some record
     \<Longrightarrow> record \<noteq> Map.empty \<Longrightarrow> \<not> is_compaction_marker record
     \<Longrightarrow> walk_reaches by_uuid head (dict_get record ''parentUuid'') (chain @ [record])"

text \<open>
  The live chain as the specification describes it: the identifiers looked at are the head,
  the parent identifier of every record found that is no marker, and, at a marker, the
  identifier of the record physically before it; the live-chain records are the records
  found under these identifiers that are no markers. An identifier that is null (or empty,
  zero or false) refers to nothing.
\<close>

inductive_set spec_visited ::
  "(json \<rightharpoonup> pydict) \<Rightarrow> (json \<rightharpoonup> nat) \<Rightarrow> pydict list \<Rightarrow> json \<Rightarrow> json set"
  for by_uuid :: "json \<rightharpoonup> pydict" and uuid_to_index :: "json \<rightharpoonup> nat"
    and records :: "pydict list" and head :: json
where
  visit_head: "head \<in> spec_visited by_uuid uuid_to_index records head"
| visit_parent: "k \<in> spec_visited by_uuid uuid_to_index records head
     \<Longrightarrow> truthy k \<Longrightarrow> by_uuid (dict_key k) = Some r \<Longrightarrow> \<not> is_compaction_marker r
     \<Longrightarrow> dict_get r ''parentUuid'' \<in> spec_visited by_uuid uuid_to_index records head"
| visit_before_marker: "k \<in> spec_visited by_uuid uuid_to_index records head
     \<Longrightarrow> truthy k \<Longrightarrow> by_uuid (dict_key k) = Some m \<Longrightarrow> is_compaction_marker m
     \<Longrightarrow> uuid_to_index (dict_key (dict_get m ''uuid'')) = Some idx \<Longrightarrow> 0 < idx
     \<Longrightarrow> dict_get (records ! (idx - 1)) ''uuid''
           \<in> spec_visited by_uuid uuid_to_index records head"

definition spec_live_chain ::
  "(json \<rightharpoonup> pydict) \<Rightarrow> (json \<rightharpoonup> nat) \<Rightarrow> pydict list \<Rightarrow> json \<Rightarrow> pydict set"
where
  "spec_live_chain by_uuid uuid_to_index records head =
     {r. \<exists>k \<in> spec_visited by_uuid uuid_to_index records head.
           truthy k \<and> by_uuid (dict_key k) = Some r \<and> \<not> is_compaction_marker r}"

text \<open>
  A log whose references point backwards: the identifiers and parent references are
  hashable, no two records carry the same non-empty identifier, and a parent reference
  names no record at the same or a later physical position.
\<close>

definition uuid_keys :: "pydict list \<Rightarrow> json list" where
  "uuid_keys records =
     map (\<lambda>r. dict_key (dict_get r ''uuid'')) (filter (\<lambda>r. truthy (dict_get r ''uuid'')) records)"

fun parents_point_back :: "pydict list \<Rightarrow> bool" where
  "parents_point_back [] = True"
| "parents_point_back (r # rest) =
     ((truthy (dict_get r ''parentUuid'')
         \<longrightarrow> hashable (dict_get r ''parentUuid'')
             \<and> dict_key (dict_get r ''parentUuid'') \<notin> set (uuid_keys (r # rest)))
      \<and> parents_point_back rest)"

definition backward_log :: "pydict list \<Rightarrow> bool" where
  "backward_log records =
     (list_all (\<lambda>r. hashable (dict_get r ''uuid'')) records
      \<and> distinct (uuid_keys records)
      \<and> parents_point_back records)"

section \<open>More example logs\<close>

text \<open>Two records that name each other as parent.\<close>

definition ex_X :: pydict where
  "ex_X = [''uuid'' \<mapsto> JStr ''x'', ''parentUuid'' \<mapsto> JStr ''y'', ''type'' \<mapsto> JStr ''user'']"

definition ex_Y :: pydict where
  "ex_Y = [''uuid'' \<mapsto> JStr ''y'', ''parentUuid'' \<mapsto> JStr ''x'', ''type'' \<mapsto> JStr ''assistant'']"

definition ex_cycle :: "pydict list" where
  "ex_cycle = [ex_X, ex_Y]"

definition ex_cycle_by_uuid :: "json \<rightharpoonup> pydict" where
  "ex_cycle_by_uuid = [JStr ''x'' \<mapsto> ex_X, JStr ''y'' \<mapsto> ex_Y]"

text \<open>A record without identifier directly before a marker.\<close>

definition ex_P :: pydict where
  "ex_P = [''type'' \<mapsto> JStr ''user'', ''text'' \<mapsto> JStr ''before the boundary'']"

definition ex_H :: pydict where
  "ex_H = [''uuid'' \<mapsto> JStr ''h'', ''parentUuid'' \<mapsto> JStr ''m'', ''type'' \<mapsto> JStr ''user'']"

definition ex_noid :: "pydict list" where
  "ex_noid = [ex_P, ex_M, ex_H]"

definition ex_noid_by_uuid :: "json \<rightharpoonup> pydict" where
  "ex_noid_by_uuid = [JStr ''m'' \<mapsto> ex_M, JStr ''h'' \<mapsto> ex_H]"

definition ex_noid_index :: "json \<rightharpoonup> nat" where
  "ex_noid_index = [JStr ''m'' \<mapsto> 1, JStr ''h'' \<mapsto> 2]"

text \<open>A record whose parent is in no record of the log.\<close>

definition ex_G :: pydict where
  "ex_G = [''uuid'' \<mapsto> JStr ''g'', ''parentUuid'' \<mapsto> JStr ''gone'', ''type'' \<mapsto> JStr ''user'']"

definition ex_K :: pydict where
  "ex_K = [''uuid'' \<mapsto> JStr ''k'', ''parentUuid'' \<mapsto> JStr ''g'', ''type'' \<mapsto> JStr ''assistant'']"

definition ex_dangling :: "pydict list" where
  "ex_dangling = [ex_G, ex_K]"

definition ex_dangling_by_uuid :: "json \<rightharpoonup> pydict" where
  "ex_dangling_by_uuid = [JStr ''g'' \<mapsto> ex_G, JStr ''k'' \<mapsto> ex_K]"

definition ex_dangling_index :: "json \<rightharpoonup> nat" where
  "ex_dangling_index = [JStr ''g'' \<mapsto> 0, JStr ''k'' \<mapsto> 1]"

text \<open>The latest live record has no identifier, an earlier one has.\<close>

definition ex_N :: pydict where
  "ex_N = [''type'' \<mapsto> JStr ''assistant'', ''text'' \<mapsto> JStr ''no identifier'']"

definition ex_S :: pydict where
  "ex_S = [''uuid'' \<mapsto> JStr ''s'', ''type'' \<mapsto> JStr ''system'', ''subtype'' \<mapsto> JStr ''info'']"

definition ex_headless :: "pydict list" where
  "ex_headless = [ex_A, ex_B, ex_N, ex_S]"

definition ex_uuid4 :: "nat \<Rightarrow> string" where
  "ex_uuid4 n = replicate (Suc n) (CHR ''u'')"

section \<open>The loops and their big-step characterisation agree\<close>

lemma walk_chain_complete:
  "walk_rel by_uuid u2i records current xs prev
   \<Longrightarrow> walk_chain by_uuid u2i records current chain = Some (Inr (chain @ xs, prev))"
proof (induction arbitrary: chain rule: walk_rel.induct)
  case (walk_step current r xs prev)
  show ?case
    using walk_step.hyps walk_step.IH [of "chain @ [r]"]
    by (subst walk_chain.simps) simp
qed (simp_all add: walk_chain.simps)

lemma walk_chain_sound_aux:
  assumes "walk_chain by_uuid u2i records current chain = Some res"
  shows "\<forall>chain' prev. res = Inr (chain', prev)
         \<longrightarrow> (\<exists>xs. chain' = chain @ xs \<and> walk_rel by_uuid u2i records current xs prev)"
proof (rule walk_chain.raw_induct
    [where P = "\<lambda>b u rs c ch y. \<forall>chain' prev. y = Inr (chain', prev)
         \<longrightarrow> (\<exists>xs. chain' = ch @ xs \<and> walk_rel b u rs c xs prev)", OF _ assms], goal_cases)
  case (1 walk by_uuid u2i records current chain res)
  show ?case
  proof (intro allI impI)
    fix chain' prev
    assume res: "res = Inr (chain', prev)"
    show "\<exists>xs. chain' = chain @ xs \<and> walk_rel by_uuid u2i records current xs prev"
    proof (cases "truthy current")
      case False
      with 1(2) res show ?thesis by (auto intro: walk_rel.walk_falsy)
    next
      case t: True
      show ?thesis
      proof (cases "hashable current")
        case False
        with 1(2) res t show ?thesis by simp
      next
        case h: True
        show ?thesis
        proof (cases "by_uuid (dict_key current)")
          case None
          with 1(2) res t h show ?thesis by (auto intro: walk_rel.walk_missing)
        next
          case (Some r)
          show ?thesis
          proof (cases "r = Map.empty")
            case True
            with 1(2) res t h Some show ?thesis by (auto intro: walk_rel.walk_empty)
          next
            case ne: False
            show ?thesis
            proof (cases "is_compaction_marker r")
              case True
              with 1(2) res t h Some ne show ?thesis
                by (auto intro: walk_rel.walk_marker split: sum.splits)
            next
              case False
              with 1(2) res t h Some ne
              have "walk by_uuid u2i records (dict_get r ''parentUuid'') (chain @ [r]) = Some res"
                by simp
              from 1(1) [OF this] res obtain xs where
                "chain' = (chain @ [r]) @ xs"
                "walk_rel by_uuid u2i records (dict_get r ''parentUuid'') xs prev"
                by blast
              with t h Some ne False show ?thesis
                by (auto intro: walk_rel.walk_step)
            qed
          qed
        qed
      qed
    qed
  qed
qed

lemma walk_chain_sound:
  "walk_chain by_uuid u2i records current chain = Some (Inr (chain', prev))
   \<Longrightarrow> \<exists>xs. chain' = chain @ xs \<and> walk_rel by_uuid u2i records current xs prev"
  using walk_chain_sound_aux by blast

lemma segments_loop_complete:
  "segs_rel by_uuid u2i records h new
   \<Longrightarrow> segments_loop by_uuid u2i records h segs = Some (Inr (segs @ new))"
proof (induction arbitrary: segs rule: segs_rel.induct)
  case (segs_done h)
  then show ?case by (simp add: segments_loop.simps)
next
  case (segs_more h xs prev rest)
  have w: "walk_chain by_uuid u2i records h [] = Some (Inr (xs, prev))"
    using walk_chain_complete [OF segs_more.hyps(2), of "[]"] by simp
  show ?case
    using segs_more.hyps(1) w segs_more.IH [of "if rev xs \<noteq> [] then segs @ [rev xs] else segs"]
    by (subst segments_loop.simps) simp
qed

lemma segments_loop_sound_aux:
  assumes "segments_loop by_uuid u2i records h segs = Some res"
  shows "\<forall>out. res = Inr out \<longrightarrow> (\<exists>new. out = segs @ new \<and> segs_rel by_uuid u2i records h new)"
proof (rule segments_loop.raw_induct
    [where P = "\<lambda>b u rs c sg y. \<forall>out. y = Inr out
         \<longrightarrow> (\<exists>new. out = sg @ new \<and> segs_rel b u rs c new)", OF _ assms], goal_cases)
  case (1 loop by_uuid u2i records h segs res)
  show ?case
  proof (intro allI impI)
    fix out
    assume res: "res = Inr out"
    show "\<exists>new. out = segs @ new \<and> segs_rel by_uuid u2i records h new"
    proof (cases "truthy h")
      case False
      with 1(2) res show ?thesis by (auto intro: segs_rel.segs_done)
    next
      case t: True
      from 1(2) t res obtain xs prev where
        w: "walk_chain by_uuid u2i records h [] = Some (Inr (xs, prev))"
        by (auto split: option.splits sum.splits)
      with 1(2) t
      have "loop by_uuid u2i records prev (if rev xs \<noteq> [] then segs @ [rev xs] else segs) = Some res"
        by simp
      from 1(1) [OF this] res obtain new where
        new: "out = (if rev xs \<noteq> [] then segs @ [rev xs] else segs) @ new"
             "segs_rel by_uuid u2i records prev new"
        by blast
      from walk_chain_sound [OF w] have wr: "walk_rel by_uuid u2i records h xs prev" by simp
      from segs_rel.segs_more [OF t wr new(2)] new(1) show ?thesis
        by (auto split: if_splits)
    qed
  qed
qed

lemma segments_loop_sound:
  "segments_loop by_uuid u2i records h segs = Some (Inr out)
   \<Longrightarrow> \<exists>new. out = segs @ new \<and> segs_rel by_uuid u2i records h new"
  using segments_loop_sound_aux by blast

lemma extract_all_segments_sound:
  assumes "extract_all_segments head_uuid by_uuid records = Some (Inr segments)"
  shows "\<exists>u2i. index_positions records 0 Map.empty = Inr u2i
           \<and> segs_rel by_uuid u2i records head_uuid (rev segments)"
proof -
  from assms obtain u2i out where
    u: "index_positions records 0 Map.empty = Inr u2i" and
    l: "segments_loop by_uuid u2i records head_uuid [] = Some (Inr out)" and
    s: "segments = rev out"
    by (auto simp: extract_all_segments_def split: sum.splits option.splits)
  from segments_loop_sound [OF l] s have "segs_rel by_uuid u2i records head_uuid (rev segments)"
    by simp
  with u show ?thesis by blast
qed

lemma extract_all_segments_complete:
  assumes "index_positions records 0 Map.empty = Inr u2i"
    and "segs_rel by_uuid u2i records head_uuid new"
  shows "extract_all_segments head_uuid by_uuid records = Some (Inr (rev new))"
  using assms segments_loop_complete [OF assms(2), of "[]"]
  by (simp add: extract_all_segments_def)

section \<open>Evaluating the example logs\<close>

lemma ex_fields:
  "dict_get ex_A ''uuid'' = JStr ''a''" "dict_get ex_A ''parentUuid'' = JNull"
  "dict_get ex_B ''uuid'' = JStr ''b''" "dict_get ex_B ''parentUuid'' = JStr ''a''"
  "dict_get ex_C ''uuid'' = JStr ''c''" "dict_get ex_C ''parentUuid'' = JStr ''b''"
  "dict_get ex_M ''uuid'' = JStr ''m''" "dict_get ex_M ''parentUuid'' = JNull"
  "dict_get ex_D ''uuid'' = JStr ''d''" "dict_get ex_D ''parentUuid'' = JStr ''c''"
  "dict_get ex_Dm ''uuid'' = JStr ''d''" "dict_get ex_Dm ''parentUuid'' = JStr ''m''"
  "dict_get ex_E ''uuid'' = JStr ''e''" "dict_get ex_E ''parentUuid'' = JStr ''d''"
  by (simp_all add: dict_get_def ex_A_def ex_B_def ex_C_def ex_M_def ex_D_def ex_Dm_def ex_E_def)

lemma ex_uuid_fields:
  "ex_A ''uuid'' = Some (JStr ''a'')" "ex_B ''uuid'' = Some (JStr ''b'')"
  "ex_C ''uuid'' = Some (JStr ''c'')" "ex_M ''uuid'' = Some (JStr ''m'')"
  "ex_D ''uuid'' = Some (JStr ''d'')" "ex_Dm ''uuid'' = Some (JStr ''d'')"
  "ex_E ''uuid'' = Some (JStr ''e'')"
  by (simp_all add: ex_A_def ex_B_def ex_C_def ex_M_def ex_D_def ex_Dm_def ex_E_def)

lemma ex_nonempty:
  "ex_A \<noteq> Map.empty" "ex_B \<noteq> Map.empty" "ex_C \<noteq> Map.empty" "ex_M \<noteq> Map.empty"
  "ex_D \<noteq> Map.empty" "ex_Dm \<noteq> Map.empty" "ex_E \<noteq> Map.empty"
  by (simp_all add: ex_A_def ex_B_def ex_C_def ex_M_def ex_D_def ex_Dm_def ex_E_def)

lemma ex_markers:
  "\<not> is_compaction_marker ex_A" "\<not> is_compaction_marker ex_B" "\<not> is_compaction_marker ex_C"
  "is_compaction_marker ex_M" "\<not> is_compaction_marker ex_D" "\<not> is_compaction_marker ex_Dm"
  "\<not> is_compaction_marker ex_E"
  by (simp_all add: is_compaction_marker_def dict_get_def
      ex_A_def ex_B_def ex_C_def ex_M_def ex_D_def ex_Dm_def ex_E_def)

lemma ex_live:
  "dict_get ex_E ''type'' = JStr ''assistant''" "\<not> truthy (dict_get ex_E ''isCompactSummary'')"
  by (simp_all add: dict_get_def ex_E_def)

lemma ex_load: "load_records ex_log = Inr (ex_log, ex_by_uuid)"
  by (simp add: load_records_def ex_log_def ex_by_uuid_def ex_uuid_fields)

lemma ex_load_m: "load_records ex_log_m = Inr (ex_log_m, ex_by_uuid_m)"
  by (simp add: load_records_def ex_log_m_def ex_by_uuid_m_def ex_uuid_fields)

lemma ex_positions: "index_positions ex_log 0 Map.empty = Inr ex_uuid_to_index"
  by (simp add: ex_log_def ex_uuid_to_index_def ex_uuid_fields eval_nat_numeral)

lemma ex_positions_m: "index_positions ex_log_m 0 Map.empty = Inr ex_uuid_to_index"
  by (simp add: ex_log_m_def ex_uuid_to_index_def ex_uuid_fields eval_nat_numeral)

lemma ex_find_head: "find_head ex_log = JStr ''e''"
  by (simp add: find_head_def ex_log_def ex_live ex_fields)

lemma ex_find_head_m: "find_head ex_log_m = JStr ''e''"
  by (simp add: find_head_def ex_log_m_def ex_live ex_fields)

lemma ex_boundary_m: "boundary_prev ex_uuid_to_index ex_log_m ex_M = Inr (JStr ''c'')"
  by (simp add: boundary_prev_def ex_uuid_to_index_def ex_log_m_def ex_fields)

lemma ex_walk_m_e:
  "walk_chain ex_by_uuid_m ex_uuid_to_index ex_log_m (JStr ''e'') [] = Some (Inr ([ex_E, ex_Dm], JStr ''c''))"
  by (simp add: walk_chain.simps ex_by_uuid_m_def ex_fields ex_nonempty ex_markers ex_boundary_m)

lemma ex_walk_m_c:
  "walk_chain ex_by_uuid_m ex_uuid_to_index ex_log_m (JStr ''c'') [] = Some (Inr ([ex_C, ex_B, ex_A], JNull))"
  by (simp add: walk_chain.simps ex_by_uuid_m_def ex_fields ex_nonempty ex_markers ex_boundary_m)

lemma ex_segments_m:
  "extract_all_segments (JStr ''e'') ex_by_uuid_m ex_log_m = Some (Inr [[ex_A, ex_B, ex_C], [ex_Dm, ex_E]])"
  by (simp add: extract_all_segments_def ex_positions_m segments_loop.simps ex_walk_m_e ex_walk_m_c)

lemma ex_walk_e:
  "walk_chain ex_by_uuid ex_uuid_to_index ex_log (JStr ''e'') [] = Some (Inr ([ex_E, ex_D, ex_C, ex_B, ex_A], JNull))"
  by (simp add: walk_chain.simps ex_by_uuid_def ex_fields ex_nonempty ex_markers)

lemma ex_segments:
  "extract_all_segments (JStr ''e'') ex_by_uuid ex_log = Some (Inr [[ex_A, ex_B, ex_C, ex_D, ex_E]])"
  by (simp add: extract_all_segments_def ex_positions segments_loop.simps ex_walk_e)

section \<open>Compaction markers are never emitted\<close>

lemma walk_rel_no_marker:
  "walk_rel by_uuid u2i records current xs prev \<Longrightarrow> r \<in> set xs \<Longrightarrow> \<not> is_compaction_marker r"
  by (induction rule: walk_rel.induct) auto

lemma segs_rel_no_marker:
  "segs_rel by_uuid u2i records h new \<Longrightarrow> seg \<in> set new \<Longrightarrow> r \<in> set seg
   \<Longrightarrow> \<not> is_compaction_marker r"
  by (induction rule: segs_rel.induct) (auto dest: walk_rel_no_marker split: if_splits)

text \<open>
  Claim C6. No compaction marker (a record with a truthy \<^verbatim>\<open>isCompactSummary\<close>, or with type
  \<^verbatim>\<open>system\<close> and subtype \<^verbatim>\<open>compact_boundary\<close>) is in any segment returned by
  \<^verbatim>\<open>extract_all_segments\<close>; and when the walk arrives at a marker it stops there with the
  chain collected so far unchanged (or raises from the position lookup).
\<close>

theorem no_marker_in_segments:
  "(\<forall>segments seg r. extract_all_segments head_uuid by_uuid records = Some (Inr segments)
       \<longrightarrow> seg \<in> set segments \<longrightarrow> r \<in> set seg \<longrightarrow> \<not> is_compaction_marker r)
   \<and> (\<forall>current record chain. truthy current \<longrightarrow> hashable current
       \<longrightarrow> by_uuid (dict_key current) = Some record \<longrightarrow> is_compaction_marker record
       \<longrightarrow> walk_chain by_uuid uuid_to_index records current chain =
            Some (case boundary_prev uuid_to_index records record of
                    Inl e \<Rightarrow> Inl e | Inr prev_chain_head \<Rightarrow> Inr (chain, prev_chain_head)))"
proof (intro conjI allI impI)
  fix segments seg r
  assume e: "extract_all_segments head_uuid by_uuid records = Some (Inr segments)"
    and "seg \<in> set segments" "r \<in> set seg"
  from extract_all_segments_sound [OF e] obtain u2i where
    "segs_rel by_uuid u2i records head_uuid (rev segments)" by blast
  from segs_rel_no_marker [OF this, of seg r] \<open>seg \<in> set segments\<close> \<open>r \<in> set seg\<close>
  show "\<not> is_compaction_marker r" by simp
next
  fix current r chain
  assume a: "truthy current" "hashable current" "by_uuid (dict_key current) = Some r"
    "is_compaction_marker r"
  then have "r \<noteq> Map.empty"
    by (auto simp: is_compaction_marker_def dict_get_def)
  with a show "walk_chain by_uuid uuid_to_index records current chain =
            Some (case boundary_prev uuid_to_index records r of
                    Inl e \<Rightarrow> Inl e | Inr prev_chain_head \<Rightarrow> Inr (chain, prev_chain_head))"
    by (subst walk_chain.simps) (simp split: sum.splits)
qed

theorem no_marker_in_segments_witness:
  "extract_all_segments (JStr ''e'') ex_by_uuid_m ex_log_m = Some (Inr [[ex_A, ex_B, ex_C], [ex_Dm, ex_E]])
   \<and> \<not> is_compaction_marker ex_Dm
   \<and> is_compaction_marker ex_M
   \<and> walk_chain ex_by_uuid_m ex_uuid_to_index ex_log_m (JStr ''m'') [ex_E, ex_Dm] = Some (Inr ([ex_E, ex_Dm], JStr ''c''))"
proof -
  have m: "truthy (JStr ''m'')" "hashable (JStr ''m'')"
    "ex_by_uuid_m (dict_key (JStr ''m'')) = Some ex_M" "is_compaction_marker ex_M"
    by (simp_all add: ex_by_uuid_m_def ex_markers)
  have s: "[ex_Dm, ex_E] \<in> set [[ex_A, ex_B, ex_C], [ex_Dm, ex_E]]" "ex_Dm \<in> set [ex_Dm, ex_E]"
    by simp_all
  from no_marker_in_segments [of "JStr ''e''" ex_by_uuid_m ex_log_m ex_uuid_to_index]
  show ?thesis
    using ex_segments_m m s ex_boundary_m by (metis (no_types, lifting) old.sum.simps(6))
qed

section \<open>The scenario A, B, C, marker, D, E\<close>

lemma has_field_nonempty: "r k = Some v \<Longrightarrow> r \<noteq> Map.empty"
  by auto

lemma marker_differs: "is_compaction_marker m \<Longrightarrow> \<not> is_compaction_marker r \<Longrightarrow> m \<noteq> r"
  by auto

text \<open>
  The scenario as the specification words it, with \<open>D\<close>'s parent being \<open>C\<close>: the walk from
  \<open>E\<close> follows the parent links \<open>E, D, C, B, A\<close> and never meets the marker, so a single
  segment of five records is returned, not two segments.
\<close>

theorem scenario_as_stated_counterexample:
  "load_records ex_log = Inr (ex_log, ex_by_uuid)
   \<and> find_head ex_log = JStr ''e''
   \<and> dict_get ex_D ''parentUuid'' = dict_get ex_C ''uuid''
   \<and> is_compaction_marker ex_M
   \<and> extract_all_segments (find_head ex_log) ex_by_uuid ex_log
       = Some (Inr [[ex_A, ex_B, ex_C, ex_D, ex_E]])
   \<and> extract_all_segments (find_head ex_log) ex_by_uuid ex_log
       \<noteq> Some (Inr [[ex_A, ex_B, ex_C], [ex_D, ex_E]])"
  by (simp add: ex_load ex_find_head ex_fields ex_markers ex_segments)

text \<open>
  Claim C2, amended. For records \<open>A, B, C, marker, D, E\<close> in that physical order, with distinct
  non-empty identifiers, \<open>A\<close> and the marker without parent, \<open>B\<close>'s parent \<open>A\<close>, \<open>C\<close>'s
  parent \<open>B\<close>, \<open>E\<close>'s parent \<open>D\<close> and \<open>E\<close> a user or assistant record: the head is \<open>E\<close>;
  when \<open>D\<close>'s parent is the marker, segmentation returns exactly the two segments
  \<open>[A, B, C]\<close> and \<open>[D, E]\<close>; when \<open>D\<close>'s parent is \<open>C\<close>, it returns the single segment
  \<open>[A, B, C, D, E]\<close>. In both cases five records are returned in total and the marker is
  in no segment.
\<close>

theorem scenario_two_segments:
  assumes ids: "A ''uuid'' = Some (JStr a)" "B ''uuid'' = Some (JStr b)" "C ''uuid'' = Some (JStr c)"
      "M ''uuid'' = Some (JStr m)" "D ''uuid'' = Some (JStr d)" "E ''uuid'' = Some (JStr e)"
    and dist: "distinct [a, b, c, m, d, e]" "\<forall>s \<in> set [a, b, c, m, d, e]. s \<noteq> []"
    and parents: "dict_get A ''parentUuid'' = JNull" "dict_get B ''parentUuid'' = JStr a"
      "dict_get C ''parentUuid'' = JStr b" "dict_get M ''parentUuid'' = JNull"
      "dict_get E ''parentUuid'' = JStr d"
    and parent_D: "dict_get D ''parentUuid'' = JStr m \<or> dict_get D ''parentUuid'' = JStr c"
    and kinds: "\<not> is_compaction_marker A" "\<not> is_compaction_marker B" "\<not> is_compaction_marker C"
      "is_compaction_marker M" "\<not> is_compaction_marker D" "\<not> is_compaction_marker E"
    and live: "dict_get E ''type'' = JStr ''user'' \<or> dict_get E ''type'' = JStr ''assistant''"
  shows "\<exists>by_uuid segments.
           load_records [A, B, C, M, D, E] = Inr ([A, B, C, M, D, E], by_uuid)
         \<and> find_head [A, B, C, M, D, E] = JStr e
         \<and> extract_all_segments (find_head [A, B, C, M, D, E]) by_uuid [A, B, C, M, D, E]
             = Some (Inr segments)
         \<and> segments = (if dict_get D ''parentUuid'' = JStr m
                        then [[A, B, C], [D, E]] else [[A, B, C, D, E]])
         \<and> length (concat segments) = 5
         \<and> M \<notin> set (concat segments)"
proof -
  define log where "log = [A, B, C, M, D, E]"
  define by_uuid where
    "by_uuid = [JStr a \<mapsto> A, JStr b \<mapsto> B, JStr c \<mapsto> C, JStr m \<mapsto> M, JStr d \<mapsto> D, JStr e \<mapsto> E]"
  define ix where
    "ix = [JStr a \<mapsto> 0::nat, JStr b \<mapsto> 1, JStr c \<mapsto> 2, JStr m \<mapsto> 3, JStr d \<mapsto> 4, JStr e \<mapsto> 5]"
  have uu: "dict_get A ''uuid'' = JStr a" "dict_get B ''uuid'' = JStr b" "dict_get C ''uuid'' = JStr c"
      "dict_get M ''uuid'' = JStr m" "dict_get D ''uuid'' = JStr d" "dict_get E ''uuid'' = JStr e"
    using ids by (simp_all add: dict_get_def)
  have ne: "A \<noteq> Map.empty" "B \<noteq> Map.empty" "C \<noteq> Map.empty" "M \<noteq> Map.empty"
      "D \<noteq> Map.empty" "E \<noteq> Map.empty"
    using ids by (auto dest: has_field_nonempty)
  have tr: "a \<noteq> []" "b \<noteq> []" "c \<noteq> []" "m \<noteq> []" "d \<noteq> []" "e \<noteq> []"
    using dist(2) by auto
  have lk: "by_uuid (JStr a) = Some A" "by_uuid (JStr b) = Some B" "by_uuid (JStr c) = Some C"
      "by_uuid (JStr m) = Some M" "by_uuid (JStr d) = Some D" "by_uuid (JStr e) = Some E"
    using dist(1) by (auto simp: by_uuid_def)
  have load: "load_records log = Inr (log, by_uuid)"
    by (simp add: load_records_def ids log_def by_uuid_def)
  have pos: "index_positions log 0 Map.empty = Inr ix"
    by (simp add: ids eval_nat_numeral log_def ix_def)
  have nsum: "\<not> truthy (dict_get E ''isCompactSummary'')"
    using kinds(6) by (auto simp: is_compaction_marker_def split: if_splits)
  have head: "find_head log = JStr e"
  proof -
    from live show ?thesis
    proof
      assume "dict_get E ''type'' = JStr ''user''"
      with nsum show ?thesis by (simp add: find_head_def uu log_def)
    next
      assume "dict_get E ''type'' = JStr ''assistant''"
      with nsum show ?thesis by (simp add: find_head_def uu log_def)
    qed
  qed
  have "ix (JStr m) = Some 3"
    using dist(1) by (auto simp: ix_def)
  then have bp: "boundary_prev ix log M = Inr (JStr c)"
    by (simp add: boundary_prev_def uu log_def)
  have w0: "walk_chain by_uuid ix log JNull ch = Some (Inr (ch, JNull))" for ch
    by (subst walk_chain.simps) simp
  have wa: "walk_chain by_uuid ix log (JStr a) ch = Some (Inr (ch @ [A], JNull))" for ch
    by (subst walk_chain.simps) (simp add: tr lk ne kinds parents w0)
  have wb: "walk_chain by_uuid ix log (JStr b) ch = Some (Inr (ch @ [B, A], JNull))" for ch
    by (subst walk_chain.simps) (simp add: tr lk ne kinds parents wa)
  have wc: "walk_chain by_uuid ix log (JStr c) ch = Some (Inr (ch @ [C, B, A], JNull))" for ch
    by (subst walk_chain.simps) (simp add: tr lk ne kinds parents wb)
  have wm: "walk_chain by_uuid ix log (JStr m) ch = Some (Inr (ch, JStr c))" for ch
    by (subst walk_chain.simps) (simp add: tr lk ne kinds bp)
  have s0: "segments_loop by_uuid ix log JNull sg = Some (Inr sg)" for sg
    by (subst segments_loop.simps) simp
  have sc: "segments_loop by_uuid ix log (JStr c) sg = Some (Inr (sg @ [[A, B, C]]))" for sg
    by (subst segments_loop.simps) (simp add: tr wc [of "[]", simplified] s0)
  have notin: "M \<notin> set [A, B, C, D, E]"
    using kinds by (auto dest: marker_differs)
  show ?thesis
  proof (cases "dict_get D ''parentUuid'' = JStr m")
    case True
    have wd: "walk_chain by_uuid ix log (JStr d) ch = Some (Inr (ch @ [D], JStr c))" for ch
      by (subst walk_chain.simps) (simp add: tr lk ne kinds True wm)
    have we: "walk_chain by_uuid ix log (JStr e) [] = Some (Inr ([E, D], JStr c))"
      by (subst walk_chain.simps) (simp add: tr lk ne kinds parents wd)
    have "segments_loop by_uuid ix log (JStr e) [] = Some (Inr [[D, E], [A, B, C]])"
      by (subst segments_loop.simps) (simp add: tr we sc)
    then have "extract_all_segments (JStr e) by_uuid log = Some (Inr [[A, B, C], [D, E]])"
      by (simp add: extract_all_segments_def pos)
    with load head True notin show ?thesis
      unfolding log_def by simp
  next
    case False
    with parent_D have pc: "dict_get D ''parentUuid'' = JStr c" by simp
    have wd: "walk_chain by_uuid ix log (JStr d) ch = Some (Inr (ch @ [D, C, B, A], JNull))" for ch
      by (subst walk_chain.simps) (simp add: tr lk ne kinds pc wc)
    have we: "walk_chain by_uuid ix log (JStr e) [] = Some (Inr ([E, D, C, B, A], JNull))"
      by (subst walk_chain.simps) (simp add: tr lk ne kinds parents wd)
    have "segments_loop by_uuid ix log (JStr e) [] = Some (Inr [[A, B, C, D, E]])"
      by (subst segments_loop.simps) (simp add: tr we s0)
    then have "extract_all_segments (JStr e) by_uuid log = Some (Inr [[A, B, C, D, E]])"
      by (simp add: extract_all_segments_def pos)
    with load head False notin show ?thesis
      unfolding log_def by simp
  qed
qed


theorem scenario_two_segments_witness:
  "extract_all_segments (find_head ex_log_m) ex_by_uuid_m ex_log_m
     = Some (Inr [[ex_A, ex_B, ex_C], [ex_Dm, ex_E]])
   \<and> length (concat [[ex_A, ex_B, ex_C], [ex_Dm, ex_E]]) = 5
   \<and> ex_M \<notin> set (concat [[ex_A, ex_B, ex_C], [ex_Dm, ex_E]])"
proof -
  have d: "distinct [''a'', ''b'', ''c'', ''m'', ''d'', ''e'']"
    "\<forall>s \<in> set [''a'', ''b'', ''c'', ''m'', ''d'', ''e'']. s \<noteq> []" by simp_all
  have p: "dict_get ex_Dm ''parentUuid'' = JStr ''m'' \<or> dict_get ex_Dm ''parentUuid'' = JStr ''c''"
    by (simp add: ex_fields)
  have l: "dict_get ex_E ''type'' = JStr ''user'' \<or> dict_get ex_E ''type'' = JStr ''assistant''"
    by (simp add: ex_live)
  from scenario_two_segments [OF ex_uuid_fields(1,2,3,4,6,7) d ex_fields(2,4,6,8,14) p
      ex_markers(1,2,3,4,6,7) l]
  show ?thesis
    by (auto simp: ex_load_m ex_log_m_def [symmetric] ex_fields)
qed

section \<open>Walk states\<close>

lemma walk_reaches_walk_chain:
  "walk_reaches by_uuid head current chain
   \<Longrightarrow> walk_chain by_uuid u2i records head [] = walk_chain by_uuid u2i records current chain"
proof (induction rule: walk_reaches.induct)
  case reaches_start
  show ?case by simp
next
  case (reaches_step current chain r)
  have "walk_chain by_uuid u2i records current chain
        = walk_chain by_uuid u2i records (dict_get r ''parentUuid'') (chain @ [r])"
    using reaches_step.hyps by (subst walk_chain.simps) simp
  with reaches_step.IH show ?case by simp
qed

lemma segments_loop_step:
  assumes "truthy head"
    and "walk_chain by_uuid u2i records head [] = Some (Inr (chain, prev))"
  shows "segments_loop by_uuid u2i records head segments
         = segments_loop by_uuid u2i records prev
             (if chain \<noteq> [] then segments @ [rev chain] else segments)"
  using assms by (subst segments_loop.simps) simp

lemma segments_loop_falsy:
  "\<not> truthy head \<Longrightarrow> segments_loop by_uuid u2i records head segments = Some (Inr segments)"
  by (subst segments_loop.simps) simp

lemma dict_get_truthy_field: "truthy (dict_get r k) \<Longrightarrow> r \<noteq> Map.empty"
  by (auto simp: dict_get_def)

text \<open>
  Claim C7. When the walk from a head arrives at a record \<open>B\<close> that is no marker and whose
  parent identifier is in no entry of the identifier index, the walk appends \<open>B\<close> and stops
  with no previous head; the chain collected so far, with \<open>B\<close> as its oldest record, is
  emitted as a segment, and it is the last one the outer loop appends.
\<close>

theorem dangling_parent_ends_segment:
  assumes "walk_reaches by_uuid head current chain"
    and "truthy head"
    and "truthy current" and "hashable current"
    and "by_uuid (dict_key current) = Some B"
    and "\<not> is_compaction_marker B"
    and "truthy (dict_get B ''parentUuid'')" and "hashable (dict_get B ''parentUuid'')"
    and "by_uuid (dict_key (dict_get B ''parentUuid'')) = None"
  shows "walk_chain by_uuid uuid_to_index records head [] = Some (Inr (chain @ [B], JNull))
       \<and> segments_loop by_uuid uuid_to_index records head segments
           = Some (Inr (segments @ [B # rev chain]))
       \<and> (index_positions records 0 Map.empty = Inr uuid_to_index
            \<longrightarrow> extract_all_segments head by_uuid records = Some (Inr [B # rev chain]))"
proof -
  have ne: "B \<noteq> Map.empty"
    using assms(7) by (rule dict_get_truthy_field)
  have stop: "walk_chain by_uuid uuid_to_index records (dict_get B ''parentUuid'') (chain @ [B])
              = Some (Inr (chain @ [B], JNull))"
    using assms(7,8,9) by (subst walk_chain.simps) simp
  have "walk_chain by_uuid uuid_to_index records current chain
        = walk_chain by_uuid uuid_to_index records (dict_get B ''parentUuid'') (chain @ [B])"
    using assms(3,4,5,6) ne by (subst walk_chain.simps) simp
  with stop walk_reaches_walk_chain [OF assms(1), of uuid_to_index records]
  have w: "walk_chain by_uuid uuid_to_index records head [] = Some (Inr (chain @ [B], JNull))"
    by simp
  have s: "segments_loop by_uuid uuid_to_index records head sg = Some (Inr (sg @ [B # rev chain]))"
    for sg
    using segments_loop_step [OF assms(2) w, of sg]
    by (simp add: segments_loop_falsy)
  from w s [of segments] s [of "[]"] show ?thesis
    by (simp add: extract_all_segments_def)
qed

lemma ex_dangling_fields:
  "dict_get ex_G ''uuid'' = JStr ''g''" "dict_get ex_G ''parentUuid'' = JStr ''gone''"
  "dict_get ex_K ''uuid'' = JStr ''k''" "dict_get ex_K ''parentUuid'' = JStr ''g''"
  "ex_G \<noteq> Map.empty" "ex_K \<noteq> Map.empty"
  "\<not> is_compaction_marker ex_G" "\<not> is_compaction_marker ex_K"
  "ex_G ''uuid'' = Some (JStr ''g'')" "ex_K ''uuid'' = Some (JStr ''k'')"
  by (simp_all add: dict_get_def is_compaction_marker_def ex_G_def ex_K_def)

lemma ex_dangling_load: "load_records ex_dangling = Inr (ex_dangling, ex_dangling_by_uuid)"
  by (simp add: load_records_def ex_dangling_def ex_dangling_by_uuid_def ex_dangling_fields)

lemma ex_dangling_positions: "index_positions ex_dangling 0 Map.empty = Inr ex_dangling_index"
  by (simp add: ex_dangling_def ex_dangling_index_def ex_dangling_fields)

lemma ex_dangling_reaches: "walk_reaches ex_dangling_by_uuid (JStr ''k'') (JStr ''g'') [ex_K]"
proof -
  have "walk_reaches ex_dangling_by_uuid (JStr ''k'') (dict_get ex_K ''parentUuid'') ([] @ [ex_K])"
    by (rule reaches_step [OF reaches_start])
       (simp_all add: ex_dangling_by_uuid_def ex_dangling_fields)
  then show ?thesis by (simp add: ex_dangling_fields)
qed

theorem dangling_parent_ends_segment_witness:
  "walk_reaches ex_dangling_by_uuid (JStr ''k'') (JStr ''g'') [ex_K]
   \<and> ex_dangling_by_uuid (JStr ''g'') = Some ex_G
   \<and> ex_dangling_by_uuid (dict_get ex_G ''parentUuid'') = None
   \<and> walk_chain ex_dangling_by_uuid ex_dangling_index ex_dangling (JStr ''k'') []
       = Some (Inr ([ex_K, ex_G], JNull))
   \<and> extract_all_segments (JStr ''k'') ex_dangling_by_uuid ex_dangling = Some (Inr [[ex_G, ex_K]])"
proof -
  have a: "truthy (JStr ''k'')" "truthy (JStr ''g'')" "hashable (JStr ''g'')"
    "ex_dangling_by_uuid (dict_key (JStr ''g'')) = Some ex_G"
    "truthy (dict_get ex_G ''parentUuid'')" "hashable (dict_get ex_G ''parentUuid'')"
    "ex_dangling_by_uuid (dict_key (dict_get ex_G ''parentUuid'')) = None"
    by (simp_all add: ex_dangling_by_uuid_def ex_dangling_fields)
  from dangling_parent_ends_segment [OF ex_dangling_reaches a(1,2,3,4) ex_dangling_fields(7) a(5,6,7),
      of ex_dangling_index ex_dangling "[]"]
  show ?thesis
    using ex_dangling_reaches a ex_dangling_positions by (simp add: ex_dangling_fields)
qed

end
